theory Spec2Isabelle
  imports Main "HOL-Library.Multiset" "HOL-Library.Product_Lexorder"
begin

section \<open>Errors\<close>

text \<open>
  The exceptions that leave the endpoints of \<^verbatim>\<open>main.py\<close>: the \<^verbatim>\<open>HTTPException\<close> of
  \<^verbatim>\<open>ensure_db\<close> (status code and detail); the \<^verbatim>\<open>OverflowError\<close> of
  \<^verbatim>\<open>date - timedelta\<close> when the result would lie before \<^verbatim>\<open>date.min\<close>; the \<^verbatim>\<open>TypeError\<close>
  of \<^verbatim>\<open>items.sort\<close> when two keys cannot be ordered; and the \<^verbatim>\<open>RequestValidationError\<close>
  with which the framework refuses a request body that does not fit the model of the
  endpoint, before the endpoint runs (the client receives HTTP 422).
  The \<^verbatim>\<open>ValueError\<close> of \<^verbatim>\<open>strptime\<close> never leaves \<^verbatim>\<open>parse_d\<close>, which turns it into
  \<^verbatim>\<open>None\<close>.
\<close>

datatype error = HTTPException nat string | OverflowError | TypeError | RequestValidationError

section \<open>Calendar dates\<close>

text \<open>
  A \<^verbatim>\<open>datetime.date\<close> is a year, a month and a day of the proleptic Gregorian calendar,
  between 0001-01-01 and 9999-12-31. Two dates are equal when the three fields are.
\<close>

datatype pydate = Date (year: nat) (month: nat) (day: nat)

definition is_leap :: "nat \<Rightarrow> bool" where
  "is_leap y = (y mod 4 = 0 \<and> (y mod 100 \<noteq> 0 \<or> y mod 400 = 0))"

definition days_in_month :: "nat \<Rightarrow> nat \<Rightarrow> nat" where
  "days_in_month y m =
     (if m = 2 then (if is_leap y then 29 else 28)
      else if m = 4 \<or> m = 6 \<or> m = 9 \<or> m = 11 then 30
      else 31)"

text \<open>The check of the \<^verbatim>\<open>date\<close> constructor, which raises \<^verbatim>\<open>ValueError\<close> otherwise.\<close>

definition valid_ymd :: "nat \<Rightarrow> nat \<Rightarrow> nat \<Rightarrow> bool" where
  "valid_ymd y m d =
     (1 \<le> y \<and> y \<le> 9999 \<and> 1 \<le> m \<and> m \<le> 12 \<and> 1 \<le> d \<and> d \<le> days_in_month y m)"

definition valid_date :: "pydate \<Rightarrow> bool" where
  "valid_date dt = valid_ymd (year dt) (month dt) (day dt)"

text \<open>
  \<^verbatim>\<open>day_ptr - timedelta(days=1)\<close>: the previous calendar day, and \<^verbatim>\<open>OverflowError\<close>
  ("date value out of range") at \<^verbatim>\<open>date.min\<close> = 0001-01-01.
\<close>

definition minus_one_day :: "pydate \<Rightarrow> error + pydate" where
  "minus_one_day dt =
     (if 1 < day dt then Inr (Date (year dt) (month dt) (day dt - 1))
      else if 1 < month dt
        then Inr (Date (year dt) (month dt - 1) (days_in_month (year dt) (month dt - 1)))
      else if 1 < year dt then Inr (Date (year dt - 1) 12 31)
      else Inl OverflowError)"

text \<open>The key by which Python orders dates: year, then month, then day.\<close>

definition date_key :: "pydate \<Rightarrow> nat \<times> nat \<times> nat" where
  "date_key dt = (year dt, month dt, day dt)"

text \<open>
  \<^verbatim>\<open>date.toordinal()\<close>: the number of the day, where 0001-01-01 is day 1.
\<close>

definition days_before_year :: "nat \<Rightarrow> int" where
  "days_before_year y =
     (let y1 = int y - 1 in y1 * 365 + y1 div 4 - y1 div 100 + y1 div 400)"

definition days_before_month :: "nat \<Rightarrow> nat \<Rightarrow> nat" where
  "days_before_month y m = sum_list (map (days_in_month y) [1..<m])"

definition toordinal :: "pydate \<Rightarrow> int" where
  "toordinal dt =
     days_before_year (year dt) + int (days_before_month (year dt) (month dt)) + int (day dt)"

section \<open>Dates with a time\<close>

text \<open>
  A \<^verbatim>\<open>datetime.datetime\<close> is an instance of \<^verbatim>\<open>date\<close> too (a subclass): a date, a time of
  day, and the offset from UTC that \<^verbatim>\<open>utcoffset()\<close> gives, in microseconds, \<open>None\<close> for a
  naive datetime (no time zone). The offset of an aware datetime is taken as fixed, as for
  \<^verbatim>\<open>datetime.timezone\<close>.
\<close>

datatype pydatetime =
  DateTime (date_part: pydate) (hour: nat) (minute: nat) (second: nat) (microsecond: nat)
    (utcoffset: "int option")

text \<open>The fields of a datetime as a number of microseconds.\<close>

definition micros :: "pydatetime \<Rightarrow> int" where
  "micros dt =
     (((toordinal (date_part dt) * 24 + int (hour dt)) * 60 + int (minute dt)) * 60
        + int (second dt)) * 1000000 + int (microsecond dt)"

section \<open>\<^verbatim>\<open>datetime.strptime(d, "%Y-%m-%d")\<close>\<close>

text \<open>
  \<^verbatim>\<open>strptime\<close> compiles the format into the regular expression
  \<^verbatim>\<open>(?P<Y>\d\d\d\d)-(?P<m>1[0-2]|0[1-9]|[1-9])-(?P<d>3[0-1]|[1-2]\d|0[1-9]|[1-9]| [1-9])\<close>,
  matches it at the start of the string, raises \<^verbatim>\<open>ValueError\<close> when it does not match or
  when text remains after the match, and builds the date from the three groups, which
  raises \<^verbatim>\<open>ValueError\<close> for a day that the calendar does not have. Each group is modelled
  as the list of its matches at the head of the string, in the order in which the
  backtracking matcher tries the alternatives; a match is the value of the group and the
  rest of the string. Characters are 8-bit here, where \<^verbatim>\<open>\d\<close> is \<^verbatim>\<open>[0-9]\<close>.
\<close>

definition is_digit :: "char \<Rightarrow> bool" where
  "is_digit c = (48 \<le> (of_char c :: nat) \<and> (of_char c :: nat) \<le> 57)"

definition digit_val :: "char \<Rightarrow> nat" where
  "digit_val c = of_char c - 48"

definition in_range :: "char \<Rightarrow> char \<Rightarrow> char \<Rightarrow> bool" where
  "in_range lo hi c = ((of_char lo :: nat) \<le> of_char c \<and> (of_char c :: nat) \<le> of_char hi)"

fun re_lit :: "char \<Rightarrow> string \<Rightarrow> string list" where
  "re_lit c [] = []"
| "re_lit c (x # rest) = (if x = c then [rest] else [])"

fun re_Y :: "string \<Rightarrow> (nat \<times> string) list" where
  "re_Y (a # b # c # d # rest) =
     (if is_digit a \<and> is_digit b \<and> is_digit c \<and> is_digit d
      then [(1000 * digit_val a + 100 * digit_val b + 10 * digit_val c + digit_val d, rest)]
      else [])"
| "re_Y _ = []"

text \<open>Two characters, the first in \<open>[l1-h1]\<close> and the second in \<open>[l2-h2]\<close>, read as a number.\<close>

fun two_chars :: "char \<Rightarrow> char \<Rightarrow> char \<Rightarrow> char \<Rightarrow> string \<Rightarrow> (nat \<times> string) list" where
  "two_chars l1 h1 l2 h2 (a # b # rest) =
     (if in_range l1 h1 a \<and> in_range l2 h2 b then [(10 * digit_val a + digit_val b, rest)] else [])"
| "two_chars l1 h1 l2 h2 _ = []"

text \<open>One character in \<open>[1-9]\<close>.\<close>

fun one_char :: "string \<Rightarrow> (nat \<times> string) list" where
  "one_char (a # rest) = (if in_range (CHR ''1'') (CHR ''9'') a then [(digit_val a, rest)] else [])"
| "one_char [] = []"

text \<open>A space and one character in \<open>[1-9]\<close>.\<close>

fun space_char :: "string \<Rightarrow> (nat \<times> string) list" where
  "space_char (a # b # rest) =
     (if a = CHR '' '' \<and> in_range (CHR ''1'') (CHR ''9'') b then [(digit_val b, rest)] else [])"
| "space_char _ = []"

definition re_m :: "string \<Rightarrow> (nat \<times> string) list" where
  "re_m s =
     two_chars (CHR ''1'') (CHR ''1'') (CHR ''0'') (CHR ''2'') s
     @ two_chars (CHR ''0'') (CHR ''0'') (CHR ''1'') (CHR ''9'') s
     @ one_char s"

definition re_d :: "string \<Rightarrow> (nat \<times> string) list" where
  "re_d s =
     two_chars (CHR ''3'') (CHR ''3'') (CHR ''0'') (CHR ''1'') s
     @ two_chars (CHR ''1'') (CHR ''2'') (CHR ''0'') (CHR ''9'') s
     @ two_chars (CHR ''0'') (CHR ''0'') (CHR ''1'') (CHR ''9'') s
     @ one_char s
     @ space_char s"

text \<open>
  All the matches of the whole expression at the head of the string, in the matcher's
  order; \<^verbatim>\<open>re.match\<close> returns the first.
\<close>

definition format_regex_matches :: "string \<Rightarrow> ((nat \<times> nat \<times> nat) \<times> string) list" where
  "format_regex_matches s =
     concat (map (\<lambda>(y, r1).
       concat (map (\<lambda>r2.
         concat (map (\<lambda>(m, r3).
           concat (map (\<lambda>r4.
             map (\<lambda>(d, r5). ((y, m, d), r5)) (re_d r4))
           (re_lit (CHR ''-'') r3)))
         (re_m r2)))
       (re_lit (CHR ''-'') r1)))
     (re_Y s))"

definition strptime :: "string \<Rightarrow> pydate option" where
  "strptime s =
     (case format_regex_matches s of
        [] \<Rightarrow> None
      | ((y, m, d), rest) # _ \<Rightarrow>
          if rest \<noteq> [] then None
          else if valid_ymd y m d then Some (Date y m d)
          else None)"

section \<open>Progress documents\<close>

text \<open>
  The value under the key \<^verbatim>\<open>"date"\<close> of a progress document, as \<^verbatim>\<open>parse_d\<close> tells
  values apart: a string; an instance of \<^verbatim>\<open>date\<close>, which is either a plain \<^verbatim>\<open>date\<close> or a
  \<^verbatim>\<open>datetime\<close>; or anything else (also \<^verbatim>\<open>None\<close>, which \<^verbatim>\<open>i.get("date")\<close> gives for a
  missing key).
\<close>

datatype date_value = VStr string | VDate pydate | VDateTime pydatetime | VOther

text \<open>
  A document of the \<^verbatim>\<open>progress\<close> collection, with the fields that the endpoints read and
  write. \<open>completed\<close> is the truth value of \<^verbatim>\<open>i.get("completed")\<close>; \<open>points_earned\<close> is an
  integer, as the schema \<^verbatim>\<open>Progress\<close> declares it and as \<^verbatim>\<open>complete_today\<close> writes it, on
  which \<^verbatim>\<open>int\<close> is the identity, and \<open>None\<close> when the key is missing, where
  \<^verbatim>\<open>i.get("points_earned", 0)\<close> gives 0.
\<close>

record progress_doc =
  user_id :: string
  date :: date_value
  completed :: bool
  points_earned :: "int option"

record stats =
  days_completed :: nat
  current_streak :: nat
  total_points :: int

section \<open>Helpers\<close>

text \<open>The model classes of \<^verbatim>\<open>schemas.py\<close> that name a collection.\<close>

datatype model_cls = User | Devotional | Progress | Reward | Product | Order

text \<open>\<^verbatim>\<open>collection_name\<close>: the class name in lower case.\<close>

fun collection_name :: "model_cls \<Rightarrow> string" where
  "collection_name User = ''user''"
| "collection_name Devotional = ''devotional''"
| "collection_name Progress = ''progress''"
| "collection_name Reward = ''reward''"
| "collection_name Product = ''product''"
| "collection_name Order = ''order''"

text \<open>
  \<^verbatim>\<open>ensure_db\<close>: the module \<^verbatim>\<open>database\<close> is not part of the sources, so its handle
  \<^verbatim>\<open>db\<close> is a parameter, \<open>None\<close> when there is no database.
\<close>

definition ensure_db :: "'db option \<Rightarrow> error + unit" where
  "ensure_db db =
     (case db of None \<Rightarrow> Inl (HTTPException 500 ''Database not available'') | Some _ \<Rightarrow> Inr ())"

section \<open>\<^verbatim>\<open>progress_stats\<close>\<close>

text \<open>
  What \<^verbatim>\<open>parse_d\<close> returns when it does not return \<^verbatim>\<open>None\<close>: a plain date (from a string,
  through \<^verbatim>\<open>strptime(...).date()\<close>, or a plain date returned as it is) or a datetime, which
  passes \<^verbatim>\<open>isinstance(d, date)\<close> and is returned as it is. The values are taken up to
  Python's \<^verbatim>\<open>==\<close> and \<^verbatim>\<open>hash\<close>, which decide membership in a set and the size of a set:
  two naive datetimes are equal when their fields are, two aware ones when their instants
  (the fields minus the offset) are, a naive and an aware one never, and a plain date and
  a datetime never either, also on the same day at midnight. So a datetime is kept as
  whether it is aware and its microseconds, of the fields when naive and of the instant
  when aware.
\<close>

datatype parsed = PDate pydate | PDateTime bool int

definition parse_d :: "date_value \<Rightarrow> parsed option" where
  "parse_d v =
     (case v of
        VStr s \<Rightarrow> map_option PDate (strptime s)
      | VDate dt \<Rightarrow> Some (PDate dt)
      | VDateTime dt \<Rightarrow>
          Some (case utcoffset dt of
                  None \<Rightarrow> PDateTime False (micros dt)
                | Some off \<Rightarrow> PDateTime True (micros dt - off))
      | VOther \<Rightarrow> None)"

text \<open>
  \<^verbatim>\<open>items.sort(key=lambda x: parse_d(x.get("date")))\<close> orders the keys with \<^verbatim>\<open><\<close>. Two
  plain dates, two naive datetimes and two aware datetimes are ordered; a plain date and a
  datetime, and a naive and an aware datetime, are not: \<^verbatim>\<open><\<close> raises \<^verbatim>\<open>TypeError\<close>. The
  sort compares every element with an element before it (the run that it counts at the
  start, the binary insertion of the others, the merge of two runs, which starts by
  comparing an element of one with an element of the other), so it raises \<^verbatim>\<open>TypeError\<close>
  exactly when the keys are of more than one kind, in whatever order they come. Otherwise
  it is a stable sort by the key.
\<close>

datatype key_kind = KDate | KNaive | KAware

fun kind_of :: "parsed \<Rightarrow> key_kind" where
  "kind_of (PDate dt) = KDate"
| "kind_of (PDateTime aware t) = (if aware then KAware else KNaive)"

definition mixed_kinds :: "progress_doc list \<Rightarrow> bool" where
  "mixed_kinds items =
     (\<exists>i \<in> set items. \<exists>j \<in> set items.
        map_option kind_of (parse_d (date i)) \<noteq> map_option kind_of (parse_d (date j)))"

text \<open>The order of the keys of one kind; the list sorted holds parseable dates only.\<close>

definition sort_key_of :: "progress_doc \<Rightarrow> (nat \<times> nat \<times> nat) \<times> int" where
  "sort_key_of i =
     (case parse_d (date i) of
        Some (PDate dt) \<Rightarrow> (date_key dt, 0)
      | Some (PDateTime aware t) \<Rightarrow> ((0, 0, 0), t)
      | None \<Rightarrow> ((0, 0, 0), 0))"

definition sort_items :: "progress_doc list \<Rightarrow> error + progress_doc list" where
  "sort_items items =
     (if mixed_kinds items then Inl TypeError else Inr (sort_key sort_key_of items))"

text \<open>
  The set comprehension
  \<^verbatim>\<open>{parse_d(i.get("date")) for i in items if i.get("completed")}\<close>
  over the filtered items, kept as the list of its elements in the order of the items.
\<close>

definition completed_dates :: "progress_doc list \<Rightarrow> parsed list" where
  "completed_dates items =
     List.map_filter (\<lambda>i. if completed i then parse_d (date i) else None) items"

text \<open>
  The loop \<^verbatim>\<open>while day_ptr in completed_dates: streak += 1; day_ptr = day_ptr - timedelta(days=1)\<close>
  from the state \<open>(day_ptr, streak)\<close>. \<^verbatim>\<open>day_ptr\<close> starts from \<^verbatim>\<open>date.today()\<close> and is a
  plain date throughout.
\<close>

function streak_loop :: "parsed list \<Rightarrow> pydate \<Rightarrow> nat \<Rightarrow> error + nat" where
  "streak_loop cs day_ptr streak =
     (if PDate day_ptr \<in> set cs
      then (case minus_one_day day_ptr of
              Inl e \<Rightarrow> Inl e
            | Inr day_ptr' \<Rightarrow> streak_loop cs day_ptr' (streak + 1))
      else Inr streak)"
  by pat_completeness auto
termination
proof (relation "inv_image (less_than <*lex*> less_than <*lex*> less_than)
                   (\<lambda>(cs, dt, n). (year dt, month dt, day dt))")
  show "wf (inv_image (less_than <*lex*> less_than <*lex*> less_than)
             (\<lambda>(cs, dt, n). (year dt, month dt, day dt)))"
    by (intro wf_inv_image wf_lex_prod wf_less_than)
next
  fix cs :: "parsed list" and day_ptr day_ptr' :: pydate and streak :: nat
  assume "minus_one_day day_ptr = Inr day_ptr'"
  then show "((cs, day_ptr', streak + 1), (cs, day_ptr, streak))
     \<in> inv_image (less_than <*lex*> less_than <*lex*> less_than)
         (\<lambda>(cs, dt, n). (year dt, month dt, day dt))"
    by (auto simp: minus_one_day_def split: if_splits)
qed

declare streak_loop.simps [simp del]

text \<open>
  The computation of \<^verbatim>\<open>progress_stats\<close> on the documents that the store returned and on
  \<^verbatim>\<open>date.today()\<close>.
\<close>

definition compute_stats :: "progress_doc list \<Rightarrow> pydate \<Rightarrow> error + stats" where
  "compute_stats items0 today =
     (let items1 = filter (\<lambda>i. parse_d (date i) \<noteq> None) items0
      in case sort_items items1 of
           Inl e \<Rightarrow> Inl e
         | Inr items \<Rightarrow>
             (let cs = completed_dates items
              in case streak_loop cs today 0 of
                   Inl e \<Rightarrow> Inl e
                 | Inr streak \<Rightarrow>
                     Inr \<lparr> days_completed = card (set cs),
                           current_streak = streak,
                           total_points =
                             sum_list (map (\<lambda>i. case points_earned i of None \<Rightarrow> 0 | Some p \<Rightarrow> p)
                                         items) \<rparr>))"

text \<open>
  The endpoint. \<^verbatim>\<open>get_documents\<close> belongs to the module \<^verbatim>\<open>database\<close>, which is not
  part of the sources: it is a parameter, applied to the collection name and to the value
  that the filter asks of \<^verbatim>\<open>user_id\<close>. \<^verbatim>\<open>date.today()\<close> is a parameter too.
\<close>

definition progress_stats ::
  "'db option \<Rightarrow> (string \<Rightarrow> string \<Rightarrow> progress_doc list) \<Rightarrow> pydate \<Rightarrow> string \<Rightarrow> error + stats" where
  "progress_stats db get_documents today uid =
     (case ensure_db db of
        Inl e \<Rightarrow> Inl e
      | Inr _ \<Rightarrow> compute_stats (get_documents (collection_name Progress) uid) today)"

section \<open>\<^verbatim>\<open>complete_today\<close>\<close>

text \<open>
  The request model \<^verbatim>\<open>CompleteRequest\<close> declares \<^verbatim>\<open>user_id: str\<close> and
  \<^verbatim>\<open>date: Optional[date] = None\<close>. In the body of the class the assignment binds the name
  \<^verbatim>\<open>date\<close> to \<^verbatim>\<open>None\<close> before the annotation is evaluated, so the annotation is
  \<^verbatim>\<open>Optional[None]\<close>, the type of \<^verbatim>\<open>None\<close>: the field holds \<^verbatim>\<open>None\<close> and nothing else.
\<close>

datatype none_type = PyNone

record complete_request =
  req_user_id :: string
  req_date :: none_type

text \<open>
  The body of a request, as the client sends it: the user, and the member \<^verbatim>\<open>"date"\<close>,
  \<open>None\<close> when it is absent or \<^verbatim>\<open>null\<close> and otherwise the value sent, a string such as
  \<^verbatim>\<open>"2025-01-02"\<close>. The framework builds the \<^verbatim>\<open>CompleteRequest\<close> from the body before the
  endpoint runs, and refuses the request when a field does not validate: a value other
  than \<^verbatim>\<open>null\<close> for the field \<^verbatim>\<open>date\<close>.
\<close>

record complete_body =
  body_user_id :: string
  body_date :: "string option"

definition validate_complete_request :: "complete_body \<Rightarrow> error + complete_request" where
  "validate_complete_request body =
     (case body_date body of
        None \<Rightarrow> Inr \<lparr> req_user_id = body_user_id body, req_date = PyNone \<rparr>
      | Some v \<Rightarrow> Inl RequestValidationError)"

text \<open>
  \<^verbatim>\<open>date.isoformat()\<close>, that is \<^verbatim>\<open>"%04d-%02d-%02d" % (year, month, day)\<close>, for the years
  1 to 9999 that a date has.
\<close>

definition digit_char :: "nat \<Rightarrow> char" where
  "digit_char n = char_of (48 + n mod 10)"

definition isoformat :: "pydate \<Rightarrow> string" where
  "isoformat dt =
     [digit_char (year dt div 1000), digit_char (year dt div 100), digit_char (year dt div 10),
      digit_char (year dt), CHR ''-'',
      digit_char (month dt div 10), digit_char (month dt), CHR ''-'',
      digit_char (day dt div 10), digit_char (day dt)]"

text \<open>The response of the endpoint: the identifier that the store gave, and the points.\<close>

record 'id complete_response =
  resp_id :: 'id
  resp_points_earned :: int

text \<open>
  The endpoint, from the body of the request. \<^verbatim>\<open>create_document\<close> belongs to the module
  \<^verbatim>\<open>database\<close> and is a parameter: applied to the collection name and the document, it
  gives the identifier of the inserted document. The result is the write that the endpoint
  asks of the store (the collection and the document) and the response. In
  \<^verbatim>\<open>payload.date or date.today()\<close> the left operand is \<^verbatim>\<open>None\<close>, which is false.
\<close>

definition complete_today ::
  "'db option \<Rightarrow> (string \<Rightarrow> progress_doc \<Rightarrow> 'id) \<Rightarrow> pydate \<Rightarrow> complete_body
     \<Rightarrow> error + ((string \<times> progress_doc) \<times> 'id complete_response)" where
  "complete_today db create_document today body =
     (case validate_complete_request body of
        Inl e \<Rightarrow> Inl e
      | Inr payload \<Rightarrow>
          (case ensure_db db of
             Inl e \<Rightarrow> Inl e
           | Inr _ \<Rightarrow>
               (let target_date = isoformat (case req_date payload of PyNone \<Rightarrow> today);
                    doc = \<lparr> user_id = req_user_id payload, date = VStr target_date,
                            completed = True, points_earned = Some 10 \<rparr>;
                    inserted_id = create_document (collection_name Progress) doc
                in Inr ((collection_name Progress, doc),
                        \<lparr> resp_id = inserted_id, resp_points_earned = 10 \<rparr>))))"

section \<open>The notions of the specification\<close>

text \<open>
  \<^verbatim>\<open>today - timedelta(days=k)\<close>, the day \<open>k\<close> days before a day, by \<open>k\<close> steps of one
  day; it does not exist before 0001-01-01.
\<close>

fun days_before :: "nat \<Rightarrow> pydate \<Rightarrow> error + pydate" where
  "days_before 0 dt = Inr dt"
| "days_before (Suc k) dt =
     (case minus_one_day dt of Inl e \<Rightarrow> Inl e | Inr dt' \<Rightarrow> days_before k dt')"

text \<open>
  The calendar day of a record: the day that the string names, the date itself, the day
  of a datetime.
\<close>

definition day_of :: "date_value \<Rightarrow> pydate option" where
  "day_of v =
     (case v of
        VStr s \<Rightarrow> strptime s
      | VDate dt \<Rightarrow> Some dt
      | VDateTime dt \<Rightarrow> Some (date_part dt)
      | VOther \<Rightarrow> None)"

text \<open>
  The completed-day set of the specification: the calendar days for which at least one
  record is of that day and is completed.
\<close>

definition completed_days :: "progress_doc list \<Rightarrow> pydate set" where
  "completed_days items = {dt. \<exists>i \<in> set items. completed i \<and> day_of (date i) = Some dt}"

text \<open>
  The set that the code builds, over all the records: the values to which the date of a
  completed record parses.
\<close>

definition completed_values :: "progress_doc list \<Rightarrow> parsed set" where
  "completed_values items = {p. \<exists>i \<in> set items. completed i \<and> parse_d (date i) = Some p}"

text \<open>The records whose date is a string or a plain date, and no datetime.\<close>

definition plain_dates :: "progress_doc list \<Rightarrow> bool" where
  "plain_dates items = (\<forall>i \<in> set items. case date i of VDateTime dt \<Rightarrow> False | _ \<Rightarrow> True)"

text \<open>The records that the filter keeps: those whose date parses.\<close>

definition parseable :: "progress_doc \<Rightarrow> bool" where
  "parseable i = (parse_d (date i) \<noteq> None)"

text \<open>The points that a record counts for, \<^verbatim>\<open>int(i.get("points_earned", 0))\<close>.\<close>

definition points_of :: "progress_doc \<Rightarrow> int" where
  "points_of i = (case points_earned i of None \<Rightarrow> 0 | Some p \<Rightarrow> p)"

section \<open>The scenario of the specification\<close>

text \<open>
  Two completed records of ten points, for 2025-01-01 and 2025-01-02, of one user; a
  record of the same user whose date does not parse; and a store that holds them.
\<close>

definition jan1_doc :: progress_doc where
  "jan1_doc = \<lparr> user_id = ''u1'', date = VStr ''2025-01-01'', completed = True,
                 points_earned = Some 10 \<rparr>"

definition jan2_doc :: progress_doc where
  "jan2_doc = \<lparr> user_id = ''u1'', date = VStr ''2025-01-02'', completed = True,
                 points_earned = Some 10 \<rparr>"

definition bad_doc :: progress_doc where
  "bad_doc = \<lparr> user_id = ''u1'', date = VStr ''not-a-date'', completed = True,
                points_earned = Some 10 \<rparr>"

text \<open>
  Two completed records of ten points of the same user whose date is a naive datetime, on
  2025-01-02 at 00:00 and at 08:30.
\<close>

definition midnight_doc :: progress_doc where
  "midnight_doc = \<lparr> user_id = ''u1'', date = VDateTime (DateTime (Date 2025 1 2) 0 0 0 0 None),
                     completed = True, points_earned = Some 10 \<rparr>"

definition morning_doc :: progress_doc where
  "morning_doc = \<lparr> user_id = ''u1'', date = VDateTime (DateTime (Date 2025 1 2) 8 30 0 0 None),
                    completed = True, points_earned = Some 10 \<rparr>"

definition scenario_store :: "progress_doc list \<Rightarrow> string \<Rightarrow> string \<Rightarrow> progress_doc list" where
  "scenario_store docs coll uid = (if coll = ''progress'' \<and> uid = ''u1'' then docs else [])"

section \<open>Lemmas on the computation\<close>

lemma parse_d_None_iff: "parse_d v = None \<longleftrightarrow> day_of v = None"
  by (cases v) (simp_all add: parse_d_def day_of_def)

lemma parse_d_PDate: "parse_d v = Some (PDate dt) \<Longrightarrow> day_of v = Some dt"
  by (cases v) (auto simp: parse_d_def day_of_def split: option.splits)

lemma parse_d_plain:
  "(case v of VDateTime dt \<Rightarrow> False | _ \<Rightarrow> True) \<Longrightarrow> parse_d v = map_option PDate (day_of v)"
  by (cases v) (simp_all add: parse_d_def day_of_def)

lemma set_completed_dates:
  "set (completed_dates items) = completed_values (filter parseable items)"
  by (force simp: completed_dates_def completed_values_def parseable_def List.map_filter_def
           split: if_splits)

lemma completed_values_filter: "completed_values (filter parseable items) = completed_values items"
  by (auto simp: completed_values_def parseable_def)

lemma completed_values_sort: "completed_values (sort_key f items) = completed_values items"
  by (simp add: completed_values_def)

lemma set_cs:
  "set (completed_dates (sort_key f (filter parseable items))) = completed_values items"
  by (simp add: set_completed_dates completed_values_sort completed_values_filter)

lemma streak_loop_set:
  "set cs = set cs' \<Longrightarrow> streak_loop cs dt n = streak_loop cs' dt n"
proof (induction cs dt n rule: streak_loop.induct)
  case (1 cs day_ptr streak)
  show ?case
  proof (cases "PDate day_ptr \<in> set cs")
    case True
    show ?thesis
    proof (cases "minus_one_day day_ptr")
      case (Inl e)
      with True "1.prems" show ?thesis
        by (subst streak_loop.simps, subst (2) streak_loop.simps) simp
    next
      case (Inr d')
      have "streak_loop cs d' (streak + 1) = streak_loop cs' d' (streak + 1)"
        using "1.IH" [OF True Inr "1.prems"] .
      with True Inr "1.prems" show ?thesis
        by (subst streak_loop.simps, subst (2) streak_loop.simps) simp
    qed
  next
    case False
    with "1.prems" show ?thesis
      by (subst streak_loop.simps, subst (2) streak_loop.simps) simp
  qed
qed

lemma streak_loop_sound:
  "streak_loop cs dt n = Inr m \<Longrightarrow>
   \<exists>N. m = n + N \<and> (\<forall>k<N. \<exists>dk. days_before k dt = Inr dk \<and> PDate dk \<in> set cs)
       \<and> (\<exists>dN. days_before N dt = Inr dN \<and> PDate dN \<notin> set cs)"
proof (induction cs dt n rule: streak_loop.induct)
  case (1 cs day_ptr streak)
  show ?case
  proof (cases "PDate day_ptr \<in> set cs")
    case False
    with "1.prems" have "m = streak" by (simp add: streak_loop.simps split: if_splits)
    with False show ?thesis by (intro exI [of _ 0]) simp
  next
    case True
    show ?thesis
    proof (cases "minus_one_day day_ptr")
      case (Inl e)
      with True "1.prems" show ?thesis by (simp add: streak_loop.simps)
    next
      case (Inr d')
      with True "1.prems" have "streak_loop cs d' (streak + 1) = Inr m"
        by (simp add: streak_loop.simps)
      from "1.IH" [OF True Inr this] obtain N where
        m: "m = streak + 1 + N"
        and allk: "\<forall>k<N. \<exists>dk. days_before k d' = Inr dk \<and> PDate dk \<in> set cs"
        and last: "\<exists>dN. days_before N d' = Inr dN \<and> PDate dN \<notin> set cs"
        by blast
      have "\<forall>k<Suc N. \<exists>dk. days_before k day_ptr = Inr dk \<and> PDate dk \<in> set cs"
      proof (intro allI impI)
        fix k assume "k < Suc N"
        show "\<exists>dk. days_before k day_ptr = Inr dk \<and> PDate dk \<in> set cs"
        proof (cases k)
          case 0
          with True show ?thesis by simp
        next
          case (Suc j)
          with \<open>k < Suc N\<close> have "j < N" by simp
          with allk Suc Inr show ?thesis by simp
        qed
      qed
      moreover from last Inr
      have "\<exists>dN. days_before (Suc N) day_ptr = Inr dN \<and> PDate dN \<notin> set cs" by simp
      moreover from m have "m = streak + Suc N" by simp
      ultimately show ?thesis by blast
    qed
  qed
qed

lemma streak_loop_complete:
  "(\<forall>k<N. \<exists>dk. days_before k dt = Inr dk \<and> PDate dk \<in> set cs) \<Longrightarrow>
   days_before N dt = Inr dN \<Longrightarrow> PDate dN \<notin> set cs \<Longrightarrow>
   streak_loop cs dt n = Inr (n + N)"
proof (induction N arbitrary: dt n)
  case 0
  then show ?case by (simp add: streak_loop.simps)
next
  case (Suc N)
  from Suc.prems(1) have here: "PDate dt \<in> set cs" by force
  from Suc.prems(2) obtain d' where d': "minus_one_day dt = Inr d'"
    and rest: "days_before N d' = Inr dN"
    by (auto split: sum.splits)
  have "\<forall>k<N. \<exists>dk. days_before k d' = Inr dk \<and> PDate dk \<in> set cs"
  proof (intro allI impI)
    fix k assume "k < N"
    then have "Suc k < Suc N" by simp
    with Suc.prems(1) obtain dk where "days_before (Suc k) dt = Inr dk" "PDate dk \<in> set cs"
      by blast
    with d' show "\<exists>dk. days_before k d' = Inr dk \<and> PDate dk \<in> set cs" by simp
  qed
  from Suc.IH [OF this rest Suc.prems(3)]
  have "streak_loop cs d' (n + 1) = Inr (n + 1 + N)" .
  with here d' show ?case by (simp add: streak_loop.simps)
qed

lemma sum_list_sort_key: "sum_list (map g (sort_key f xs)) = sum_list (map (g :: 'a \<Rightarrow> int) xs)"
proof -
  have "sum_list (map g (sort_key f xs)) = sum_mset (image_mset g (mset (sort_key f xs)))"
    by (metis mset_map sum_mset_sum_list)
  also have "\<dots> = sum_mset (image_mset g (mset xs))" by simp
  also have "\<dots> = sum_list (map g xs)" by (metis mset_map sum_mset_sum_list)
  finally show ?thesis .
qed

lemma compute_stats_unfold:
  "compute_stats items today =
     (if mixed_kinds (filter parseable items) then Inl TypeError
      else case streak_loop (completed_dates (sort_key sort_key_of (filter parseable items))) today 0 of
        Inl e \<Rightarrow> Inl e
      | Inr n \<Rightarrow> Inr \<lparr> days_completed = card (completed_values items), current_streak = n,
                        total_points = sum_list (map points_of (filter parseable items)) \<rparr>)"
proof -
  have f: "(\<lambda>i. parse_d (date i) \<noteq> None) = parseable" by (simp add: parseable_def fun_eq_iff)
  have p: "(\<lambda>i. case points_earned i of None \<Rightarrow> 0 | Some p \<Rightarrow> p) = points_of"
    by (simp add: points_of_def fun_eq_iff)
  show ?thesis
  proof (cases "mixed_kinds (filter parseable items)")
    case True
    then show ?thesis unfolding compute_stats_def Let_def f sort_items_def by simp
  next
    case False
    then show ?thesis
      unfolding compute_stats_def Let_def f p sort_items_def
      by (simp only: if_False sum.case set_cs sum_list_sort_key)
  qed
qed

lemma days_in_month_pos: "1 \<le> days_in_month y m"
  by (simp add: days_in_month_def)

lemma minus_one_day_valid:
  assumes v: "valid_date dt" and m: "minus_one_day dt = Inr dt'"
  shows "valid_date dt'"
proof (cases "1 < day dt")
  case True
  with m have "dt' = Date (year dt) (month dt) (day dt - 1)" by (simp add: minus_one_day_def)
  with v True show ?thesis by (simp add: valid_date_def valid_ymd_def) linarith
next
  case d: False
  show ?thesis
  proof (cases "1 < month dt")
    case True
    with d m have "dt' = Date (year dt) (month dt - 1) (days_in_month (year dt) (month dt - 1))"
      by (simp add: minus_one_day_def)
    with v True show ?thesis using days_in_month_pos [of "year dt" "month dt - 1"]
      by (simp add: valid_date_def valid_ymd_def) linarith
  next
    case mo: False
    with d m have y: "1 < year dt" and "dt' = Date (year dt - 1) 12 31"
      by (simp_all add: minus_one_day_def split: if_splits)
    moreover have "days_in_month (year dt - 1) 12 = 31" by (simp add: days_in_month_def)
    ultimately show ?thesis using v by (simp add: valid_date_def valid_ymd_def) linarith
  qed
qed

lemma minus_one_day_overflow:
  assumes v: "valid_date dt" and m: "minus_one_day dt = Inl e"
  shows "dt = Date 1 1 1 \<and> e = OverflowError"
proof -
  from m have "\<not> 1 < day dt" "\<not> 1 < month dt" "\<not> 1 < year dt" "e = OverflowError"
    by (simp_all add: minus_one_day_def split: if_splits)
  with v have "day dt = 1" "month dt = 1" "year dt = 1" "e = OverflowError"
    by (simp_all add: valid_date_def valid_ymd_def)
  then show ?thesis by (cases dt) simp
qed

lemma minus_one_day_less:
  "minus_one_day dt = Inr dt' \<Longrightarrow> date_key dt' < date_key dt"
  by (auto simp: minus_one_day_def date_key_def split: if_splits)

lemma streak_loop_returns:
  "valid_date dt \<Longrightarrow> PDate (Date 1 1 1) \<notin> set cs \<Longrightarrow> \<exists>m. streak_loop cs dt n = Inr m"
proof (induction cs dt n rule: streak_loop.induct)
  case (1 cs day_ptr streak)
  show ?case
  proof (cases "PDate day_ptr \<in> set cs")
    case False
    then show ?thesis by (simp add: streak_loop.simps)
  next
    case True
    with "1.prems" have ne: "day_ptr \<noteq> Date 1 1 1" by auto
    show ?thesis
    proof (cases "minus_one_day day_ptr")
      case (Inl e)
      with "1.prems" ne show ?thesis using minus_one_day_overflow by blast
    next
      case (Inr d')
      from "1.prems" Inr have "valid_date d'" by (blast intro: minus_one_day_valid)
      from "1.IH" [OF True Inr this "1.prems"(2)] True Inr show ?thesis
        by (simp add: streak_loop.simps)
    qed
  qed
qed

lemma streak_loop_error:
  "valid_date dt \<Longrightarrow> streak_loop cs dt n = Inl e \<Longrightarrow>
     e = OverflowError \<and> PDate (Date 1 1 1) \<in> set cs"
proof (induction cs dt n rule: streak_loop.induct)
  case (1 cs day_ptr streak)
  from "1.prems"(2) have mem: "PDate day_ptr \<in> set cs"
    by (simp add: streak_loop.simps split: if_splits)
  show ?case
  proof (cases "minus_one_day day_ptr")
    case (Inl e')
    with "1.prems" mem have "e' = e" by (simp add: streak_loop.simps)
    with Inl "1.prems"(1) mem show ?thesis using minus_one_day_overflow by blast
  next
    case (Inr d')
    from "1.prems" Inr have v: "valid_date d'" by (blast intro: minus_one_day_valid)
    from "1.prems"(2) mem Inr have "streak_loop cs d' (streak + 1) = Inl e"
      by (simp add: streak_loop.simps)
    from "1.IH" [OF mem Inr v this] show ?thesis .
  qed
qed

lemma finite_dates_of: "finite {x. PDate x \<in> set cs \<and> P x}"
proof -
  have "finite (PDate -` set cs)" by (intro finite_vimageI) (simp_all add: inj_on_def)
  moreover have "{x. PDate x \<in> set cs \<and> P x} \<subseteq> PDate -` set cs" by auto
  ultimately show ?thesis by (rule rev_finite_subset)
qed

lemma card_dates_of: "card {x. PDate x \<in> set cs \<and> P x} \<le> card (set cs)"
proof -
  have "card (PDate ` {x. PDate x \<in> set cs \<and> P x}) = card {x. PDate x \<in> set cs \<and> P x}"
    by (intro card_image) (simp add: inj_on_def)
  moreover have "card (PDate ` {x. PDate x \<in> set cs \<and> P x}) \<le> card (set cs)"
    by (intro card_mono) auto
  ultimately show ?thesis by simp
qed

lemma streak_loop_bound:
  "streak_loop cs dt n = Inr m \<Longrightarrow>
     m \<le> n + card {x. PDate x \<in> set cs \<and> date_key x \<le> date_key dt}"
proof (induction cs dt n rule: streak_loop.induct)
  case (1 cs day_ptr streak)
  show ?case
  proof (cases "PDate day_ptr \<in> set cs")
    case False
    with "1.prems" show ?thesis by (simp add: streak_loop.simps)
  next
    case True
    show ?thesis
    proof (cases "minus_one_day day_ptr")
      case (Inl e)
      with True "1.prems" show ?thesis by (simp add: streak_loop.simps)
    next
      case (Inr d')
      with True "1.prems" have "streak_loop cs d' (streak + 1) = Inr m"
        by (simp add: streak_loop.simps)
      from "1.IH" [OF True Inr this]
      have le: "m \<le> streak + 1 + card {x. PDate x \<in> set cs \<and> date_key x \<le> date_key d'}" .
      have less: "date_key d' < date_key day_ptr" using Inr by (rule minus_one_day_less)
      have "insert day_ptr {x. PDate x \<in> set cs \<and> date_key x \<le> date_key d'}
              \<subseteq> {x. PDate x \<in> set cs \<and> date_key x \<le> date_key day_ptr}"
        using True less by auto
      then have "card (insert day_ptr {x. PDate x \<in> set cs \<and> date_key x \<le> date_key d'})
              \<le> card {x. PDate x \<in> set cs \<and> date_key x \<le> date_key day_ptr}"
        by (intro card_mono finite_dates_of)
      moreover have "day_ptr \<notin> {x. PDate x \<in> set cs \<and> date_key x \<le> date_key d'}"
        using less by auto
      then have "card (insert day_ptr {x. PDate x \<in> set cs \<and> date_key x \<le> date_key d'})
               = Suc (card {x. PDate x \<in> set cs \<and> date_key x \<le> date_key d'})"
        by (intro card_insert_disjoint finite_dates_of)
      ultimately show ?thesis using le by simp
    qed
  qed
qed

lemma progress_stats_Some:
  "progress_stats (Some db) gd today uid = compute_stats (gd (collection_name Progress) uid) today"
  by (simp add: progress_stats_def ensure_db_def)

lemma progress_stats_None:
  "progress_stats None gd today uid = Inl (HTTPException 500 ''Database not available'')"
  by (simp add: progress_stats_def ensure_db_def)

lemma compute_stats_Inr:
  assumes "compute_stats items today = Inr st"
  shows "days_completed st = card (completed_values items)"
    and "total_points st = sum_list (map points_of (filter parseable items))"
    and "streak_loop (completed_dates (sort_key sort_key_of (filter parseable items))) today 0
           = Inr (current_streak st)"
    and "\<not> mixed_kinds (filter parseable items)"
  using assms by (auto simp: compute_stats_unfold split: sum.splits if_splits)

lemma compute_stats_returns:
  assumes "valid_date today" and "PDate (Date 1 1 1) \<notin> completed_values items"
    and "\<not> mixed_kinds (filter parseable items)"
  shows "\<exists>st. compute_stats items today = Inr st"
proof -
  let ?cs = "completed_dates (sort_key sort_key_of (filter parseable items))"
  from assms(2) have "PDate (Date 1 1 1) \<notin> set ?cs" by (simp add: set_cs)
  from streak_loop_returns [OF assms(1) this] obtain m where "streak_loop ?cs today 0 = Inr m"
    by blast
  with assms(3) show ?thesis by (simp add: compute_stats_unfold)
qed

lemma compute_stats_streak_iff:
  "(\<exists>st. compute_stats items today = Inr st \<and> current_streak st = N) \<longleftrightarrow>
   (\<not> mixed_kinds (filter parseable items)
    \<and> (\<forall>k<N. \<exists>dk. days_before k today = Inr dk \<and> PDate dk \<in> completed_values items)
    \<and> (\<exists>dN. days_before N today = Inr dN \<and> PDate dN \<notin> completed_values items))"
  (is "?L \<longleftrightarrow> ?R")
proof
  let ?cs = "completed_dates (sort_key sort_key_of (filter parseable items))"
  assume ?L
  then obtain st where st: "compute_stats items today = Inr st" and n: "current_streak st = N"
    by blast
  from compute_stats_Inr(3) [OF st] n have "streak_loop ?cs today 0 = Inr N" by simp
  from streak_loop_sound [OF this] compute_stats_Inr(4) [OF st] show ?R by (simp add: set_cs)
next
  let ?cs = "completed_dates (sort_key sort_key_of (filter parseable items))"
  assume r: ?R
  then obtain dN where dN: "days_before N today = Inr dN" "PDate dN \<notin> set ?cs"
    by (auto simp: set_cs)
  from r have "\<forall>k<N. \<exists>dk. days_before k today = Inr dk \<and> PDate dk \<in> set ?cs"
    by (simp add: set_cs)
  from streak_loop_complete [OF this dN] have "streak_loop ?cs today 0 = Inr N" by simp
  with r show ?L by (simp add: compute_stats_unfold)
qed

lemma compute_stats_streak_le:
  assumes "compute_stats items today = Inr st"
  shows "current_streak st \<le> days_completed st"
proof -
  let ?cs = "completed_dates (sort_key sort_key_of (filter parseable items))"
  from streak_loop_bound [OF compute_stats_Inr(3) [OF assms]]
  have "current_streak st \<le> card {x. PDate x \<in> set ?cs \<and> date_key x \<le> date_key today}" by simp
  also have "\<dots> \<le> card (set ?cs)" by (rule card_dates_of)
  also have "\<dots> = days_completed st" by (simp add: set_cs compute_stats_Inr(1) [OF assms])
  finally show ?thesis .
qed

lemma compute_stats_mset:
  assumes "mset xs = mset ys"
  shows "compute_stats xs today = compute_stats ys today"
proof -
  from assms have s: "set xs = set ys" by (rule mset_eq_setD)
  then have cd: "completed_values xs = completed_values ys" by (simp add: completed_values_def)
  from s have mk: "mixed_kinds (filter parseable xs) = mixed_kinds (filter parseable ys)"
    by (simp add: mixed_kinds_def)
  have "mset (map points_of (filter parseable xs)) = mset (map points_of (filter parseable ys))"
    using assms by simp
  then have sm: "sum_list (map points_of (filter parseable xs))
               = sum_list (map points_of (filter parseable ys))"
    by (metis sum_mset_sum_list)
  have sl: "streak_loop (completed_dates (sort_key sort_key_of (filter parseable xs))) today 0
          = streak_loop (completed_dates (sort_key sort_key_of (filter parseable ys))) today 0"
    by (rule streak_loop_set) (simp add: set_cs cd)
  show ?thesis by (simp only: compute_stats_unfold sl cd sm mk)
qed

lemma compute_stats_drop_unparseable:
  assumes "parse_d (date r) = None"
  shows "compute_stats (xs @ r # ys) today = compute_stats (xs @ ys) today"
proof -
  from assms have "\<not> parseable r" by (simp add: parseable_def)
  then have fl: "filter parseable (xs @ r # ys) = filter parseable (xs @ ys)" by simp
  from assms have cd: "completed_values (xs @ r # ys) = completed_values (xs @ ys)"
    by (auto simp: completed_values_def)
  show ?thesis by (simp only: compute_stats_unfold fl cd)
qed

subsection \<open>Records without datetimes\<close>

lemma plain_dates_not_mixed:
  assumes "plain_dates items"
  shows "\<not> mixed_kinds (filter parseable items)"
proof -
  have k: "map_option kind_of (parse_d (date i)) = Some KDate"
    if "i \<in> set items" "parseable i" for i
  proof -
    from assms that(1) have "parse_d (date i) = map_option PDate (day_of (date i))"
      by (intro parse_d_plain) (simp add: plain_dates_def)
    with that(2) show ?thesis by (auto simp: parseable_def)
  qed
  have "map_option kind_of (parse_d (date i)) = map_option kind_of (parse_d (date j))"
    if "i \<in> set (filter parseable items)" "j \<in> set (filter parseable items)" for i j
  proof -
    from that have "i \<in> set items" "parseable i" "j \<in> set items" "parseable j" by simp_all
    then show ?thesis by (simp only: k)
  qed
  then show ?thesis unfolding mixed_kinds_def by blast
qed

lemma plain_dates_completed_values:
  assumes "plain_dates items"
  shows "PDate dt \<in> completed_values items \<longleftrightarrow> dt \<in> completed_days items"
proof
  assume "PDate dt \<in> completed_values items"
  then show "dt \<in> completed_days items"
    by (auto simp: completed_values_def completed_days_def dest: parse_d_PDate)
next
  assume "dt \<in> completed_days items"
  then obtain i where i: "i \<in> set items" "completed i" "day_of (date i) = Some dt"
    by (auto simp: completed_days_def)
  from assms i(1) have "parse_d (date i) = map_option PDate (day_of (date i))"
    by (intro parse_d_plain) (simp add: plain_dates_def)
  with i show "PDate dt \<in> completed_values items" by (auto simp: completed_values_def)
qed

lemma plain_dates_values_image:
  assumes "plain_dates items"
  shows "completed_values items = PDate ` completed_days items"
proof (intro set_eqI iffI)
  fix p assume p: "p \<in> completed_values items"
  then obtain i where i: "i \<in> set items" "completed i" "parse_d (date i) = Some p"
    by (auto simp: completed_values_def)
  from assms i(1) have "parse_d (date i) = map_option PDate (day_of (date i))"
    by (intro parse_d_plain) (simp add: plain_dates_def)
  with i(3) obtain dt where "p = PDate dt" by auto
  with p assms show "p \<in> PDate ` completed_days items"
    by (simp add: plain_dates_completed_values)
next
  fix p assume "p \<in> PDate ` completed_days items"
  with assms show "p \<in> completed_values items"
    by (auto simp: plain_dates_completed_values)
qed

lemma plain_dates_card:
  assumes "plain_dates items"
  shows "card (completed_values items) = card (completed_days items)"
  unfolding plain_dates_values_image [OF assms]
  by (intro card_image) (simp add: inj_on_def)

subsection \<open>Evaluating the scenarios\<close>

lemma strptime_jan1: "strptime ''2025-01-01'' = Some (Date 2025 1 1)"
  by code_simp

lemma strptime_jan2: "strptime ''2025-01-02'' = Some (Date 2025 1 2)"
  by code_simp

lemma strptime_bad: "strptime ''not-a-date'' = None"
  by code_simp

lemma parse_jan1: "parse_d (date jan1_doc) = Some (PDate (Date 2025 1 1))"
  by (simp add: jan1_doc_def parse_d_def strptime_jan1)

lemma parse_jan2: "parse_d (date jan2_doc) = Some (PDate (Date 2025 1 2))"
  by (simp add: jan2_doc_def parse_d_def strptime_jan2)

lemma parse_bad: "parse_d (VStr ''not-a-date'') = None"
  by (simp add: parse_d_def strptime_bad)

lemma toordinal_jan2: "toordinal (Date 2025 1 2) = 739253"
  by code_simp

lemma parse_midnight: "parse_d (date midnight_doc) = Some (PDateTime False 63871459200000000)"
  by (simp add: midnight_doc_def parse_d_def micros_def toordinal_jan2 del: One_nat_def)

lemma parse_morning: "parse_d (date morning_doc) = Some (PDateTime False 63871489800000000)"
  by (simp add: morning_doc_def parse_d_def micros_def toordinal_jan2 del: One_nat_def)

lemma scenario_store_progress:
  "scenario_store docs (collection_name Progress) ''u1'' = docs"
  by (simp add: scenario_store_def)

lemmas scenario_parse = parse_jan1 parse_jan2 parse_midnight parse_morning

lemma completed_scenario:
  "completed jan1_doc" "completed jan2_doc" "completed midnight_doc" "completed morning_doc"
  by (simp_all add: jan1_doc_def jan2_doc_def midnight_doc_def morning_doc_def)

lemma points_scenario:
  "points_of jan1_doc = 10" "points_of jan2_doc = 10" "points_of midnight_doc = 10"
  "points_of morning_doc = 10"
  by (simp_all add: points_of_def jan1_doc_def jan2_doc_def midnight_doc_def morning_doc_def)

lemma parseable_scenario:
  "parseable jan1_doc" "parseable jan2_doc" "parseable midnight_doc" "parseable morning_doc"
  by (simp_all add: parseable_def scenario_parse)

lemma compute_stats_value:
  assumes "\<not> mixed_kinds (filter parseable items)"
    and "completed_values items = set cs"
    and "streak_loop cs today 0 = Inr n"
    and "card (set cs) = d"
    and "sum_list (map points_of (filter parseable items)) = p"
  shows "compute_stats items today
           = Inr \<lparr> days_completed = d, current_streak = n, total_points = p \<rparr>"
proof -
  have "streak_loop (completed_dates (sort_key sort_key_of (filter parseable items))) today 0
          = streak_loop cs today 0"
    by (rule streak_loop_set) (simp only: set_cs assms(2))
  with assms show ?thesis by (simp only: compute_stats_unfold if_False sum.case)
qed

lemma compute_stats_mixed:
  "mixed_kinds (filter parseable items) \<Longrightarrow> compute_stats items today = Inl TypeError"
  by (simp only: compute_stats_unfold if_True)

lemma completed_values_scenario:
  "completed_values [jan1_doc, jan2_doc] = set [PDate (Date 2025 1 1), PDate (Date 2025 1 2)]"
  by (auto simp: completed_values_def scenario_parse completed_scenario)

lemma not_mixed_scenario: "\<not> mixed_kinds (filter parseable [jan1_doc, jan2_doc])"
  by (simp add: mixed_kinds_def parseable_scenario scenario_parse)

lemma days_before_1: "days_before 1 (Date 2025 1 2) = Inr (Date 2025 1 1)"
  by (simp add: minus_one_day_def)

lemma days_before_2: "days_before 2 (Date 2025 1 2) = Inr (Date 2024 12 31)"
  by (simp add: numeral_2_eq_2 minus_one_day_def)

lemma valid_jan2: "valid_date (Date 2025 1 2)"
  by (simp add: valid_date_def valid_ymd_def days_in_month_def)

lemma streak_scenario:
  "streak_loop [PDate (Date 2025 1 1), PDate (Date 2025 1 2)] (Date 2025 1 2) 0 = Inr 2"
  by (simp add: streak_loop.simps minus_one_day_def)

lemma scenario_value:
  "progress_stats (Some ()) (scenario_store [jan1_doc, jan2_doc]) (Date 2025 1 2) ''u1''
     = Inr \<lparr> days_completed = 2, current_streak = 2, total_points = 20 \<rparr>"
  unfolding progress_stats_Some scenario_store_progress
  by (rule compute_stats_value [OF not_mixed_scenario completed_values_scenario streak_scenario])
     (simp_all add: parseable_scenario points_scenario)

subsection \<open>The scenarios with datetimes\<close>

lemma midnight_values:
  "completed_values [midnight_doc] = set [PDateTime False 63871459200000000]"
  by (auto simp: completed_values_def scenario_parse completed_scenario)

lemma midnight_not_mixed: "\<not> mixed_kinds (filter parseable [midnight_doc])"
  by (simp add: mixed_kinds_def parseable_scenario scenario_parse)

lemma midnight_value:
  "progress_stats (Some ()) (scenario_store [midnight_doc]) (Date 2025 1 2) ''u1''
     = Inr \<lparr> days_completed = 1, current_streak = 0, total_points = 10 \<rparr>"
  unfolding progress_stats_Some scenario_store_progress
  by (rule compute_stats_value [OF midnight_not_mixed midnight_values])
     (simp_all add: parseable_scenario points_scenario streak_loop.simps)

lemma two_datetimes_values:
  "completed_values [midnight_doc, morning_doc]
     = set [PDateTime False 63871459200000000, PDateTime False 63871489800000000]"
  by (auto simp: completed_values_def scenario_parse completed_scenario)

lemma two_datetimes_not_mixed: "\<not> mixed_kinds (filter parseable [midnight_doc, morning_doc])"
  by (simp add: mixed_kinds_def parseable_scenario scenario_parse)

lemma two_datetimes_value:
  "progress_stats (Some ()) (scenario_store [midnight_doc, morning_doc]) (Date 2025 1 2) ''u1''
     = Inr \<lparr> days_completed = 2, current_streak = 0, total_points = 20 \<rparr>"
  unfolding progress_stats_Some scenario_store_progress
  by (rule compute_stats_value [OF two_datetimes_not_mixed two_datetimes_values])
     (simp_all add: parseable_scenario points_scenario streak_loop.simps)

lemma date_and_datetime_value:
  "progress_stats (Some ()) (scenario_store [jan1_doc, midnight_doc]) (Date 2025 1 2) ''u1''
     = Inl TypeError"
  unfolding progress_stats_Some scenario_store_progress
  by (rule compute_stats_mixed)
     (simp add: mixed_kinds_def parseable_scenario scenario_parse)

lemma day_of_datetimes:
  "day_of (date midnight_doc) = Some (Date 2025 1 2)"
  "day_of (date morning_doc) = Some (Date 2025 1 2)"
  by (simp_all add: day_of_def midnight_doc_def morning_doc_def)

lemma completed_days_midnight: "completed_days [midnight_doc] = {Date 2025 1 2}"
  by (auto simp: completed_days_def day_of_datetimes completed_scenario)

lemma completed_days_two_datetimes: "completed_days [midnight_doc, morning_doc] = {Date 2025 1 2}"
  by (auto simp: completed_days_def day_of_datetimes completed_scenario)

section \<open>The claims on \<^verbatim>\<open>progress_stats\<close>\<close>

subsection \<open>Records whose date is a string or a plain date\<close>

text \<open>
  On records without datetimes the endpoint returns the streak \<open>N\<close> exactly when the days
  \<open>today\<close>, \<open>today - 1\<close>, ..., \<open>today - (N - 1)\<close> are all in the set of completed days and
  \<open>today - N\<close> is a day that is not.
\<close>

lemma compute_stats_plain_streak:
  assumes "plain_dates items"
  shows "(\<exists>st. compute_stats items today = Inr st \<and> current_streak st = N) \<longleftrightarrow>
      ((\<forall>k<N. \<exists>dk. days_before k today = Inr dk \<and> dk \<in> completed_days items)
       \<and> (\<exists>dN. days_before N today = Inr dN \<and> dN \<notin> completed_days items))"
  unfolding compute_stats_streak_iff
  using plain_dates_not_mixed [OF assms]
  by (simp add: plain_dates_completed_values [OF assms])

lemma plain_dates_streak_walk:
  assumes "plain_dates (gd (collection_name Progress) uid)"
  shows "(\<exists>st. progress_stats (Some db) gd today uid = Inr st \<and> current_streak st = N) \<longleftrightarrow>
      ((\<forall>k<N. \<exists>dk. days_before k today = Inr dk
                \<and> dk \<in> completed_days (gd (collection_name Progress) uid))
       \<and> (\<exists>dN. days_before N today = Inr dN
                \<and> dN \<notin> completed_days (gd (collection_name Progress) uid)))"
  unfolding progress_stats_Some using assms by (rule compute_stats_plain_streak)

text \<open>
  On records without datetimes \<open>days_completed\<close> is the number of distinct completed
  calendar days.
\<close>

lemma plain_dates_days_completed:
  assumes "plain_dates (gd (collection_name Progress) uid)"
    and "progress_stats (Some db) gd today uid = Inr st"
  shows "days_completed st = card (completed_days (gd (collection_name Progress) uid))"
proof -
  from assms(2) have "compute_stats (gd (collection_name Progress) uid) today = Inr st"
    unfolding progress_stats_Some .
  then have "days_completed st = card (completed_values (gd (collection_name Progress) uid))"
    by (rule compute_stats_Inr(1))
  then show ?thesis unfolding plain_dates_card [OF assms(1)] .
qed

text \<open>
  On all records, \<open>total_points\<close> is the sum of the points of the records whose date
  parses, completed or not.
\<close>

lemma total_points_all_parseable:
  assumes "progress_stats (Some db) gd today uid = Inr st"
  shows "total_points st
           = sum_list (map points_of (filter parseable (gd (collection_name Progress) uid)))"
  using assms unfolding progress_stats_Some by (rule compute_stats_Inr(2))

text \<open>
  A further completed record whose date parses to the value of a completed record that
  is already there adds its points and changes nothing else. For strings and plain dates
  this is a record for a day that is already completed.
\<close>

lemma compute_stats_append_duplicate:
  assumes r: "completed r" "parse_d (date r) = Some p"
    and old: "p \<in> completed_values items"
    and st: "compute_stats items today = Inr st"
  shows "compute_stats (items @ [r]) today
           = Inr (st\<lparr>total_points := total_points st + points_of r\<rparr>)"
proof -
  from r(2) have p: "parseable r" by (simp add: parseable_def)
  from r old have cd: "completed_values (items @ [r]) = completed_values items"
    by (auto simp: completed_values_def)
  from old obtain i where i: "i \<in> set items" "parse_d (date i) = Some p"
    by (auto simp: completed_values_def)
  then have ip: "i \<in> set (filter parseable items)" by (simp add: parseable_def)
  have nm: "\<not> mixed_kinds (filter parseable items)" using st by (rule compute_stats_Inr(4))
  have same: "map_option kind_of (parse_d (date j)) = Some (kind_of p)"
    if "j \<in> set (filter parseable items)" for j
    using nm ip that i(2) unfolding mixed_kinds_def by force
  have "map_option kind_of (parse_d (date j)) = map_option kind_of (parse_d (date k))"
    if "j \<in> set (filter parseable (items @ [r]))" "k \<in> set (filter parseable (items @ [r]))"
    for j k
  proof -
    have "map_option kind_of (parse_d (date x)) = Some (kind_of p)"
      if "x \<in> set (filter parseable (items @ [r]))" for x
    proof (cases "x = r")
      case True
      with r(2) show ?thesis by simp
    next
      case False
      with that have "x \<in> set (filter parseable items)" by (auto split: if_splits)
      then show ?thesis by (rule same)
    qed
    from this [OF that(1)] this [OF that(2)] show ?thesis by (simp only:)
  qed
  then have nm': "\<not> mixed_kinds (filter parseable (items @ [r]))"
    unfolding mixed_kinds_def by blast
  have sl: "streak_loop (completed_dates (sort_key sort_key_of (filter parseable (items @ [r])))) today 0
          = streak_loop (completed_dates (sort_key sort_key_of (filter parseable items))) today 0"
    by (rule streak_loop_set) (simp only: set_cs cd)
  have fl: "sum_list (map points_of (filter parseable (items @ [r])))
          = sum_list (map points_of (filter parseable items)) + points_of r"
    using p by simp
  from st nm nm' show ?thesis
    unfolding compute_stats_unfold [of "items @ [r]"] sl cd fl
    by (auto simp: compute_stats_unfold split: sum.splits)
qed

subsection \<open>Records whose date is a datetime\<close>

text \<open>
  C1. The claim fails on a record whose date is a datetime. The store holds one completed
  record, dated 2025-01-02 at 00:00, and today is 2025-01-02: today is in the set of
  completed days, so that the walk of the claim counts one day at least, and the endpoint
  returns the streak 0. \<^verbatim>\<open>parse_d\<close> returns the datetime as it is, where the branch of the
  strings takes the \<^verbatim>\<open>.date()\<close>, and a datetime is never equal to the plain date
  \<^verbatim>\<open>day_ptr\<close>.
\<close>

theorem streak_datetime_record:
  "Date 2025 1 2 \<in> completed_days (scenario_store [midnight_doc] (collection_name Progress) ''u1'')
   \<and> progress_stats (Some ()) (scenario_store [midnight_doc]) (Date 2025 1 2) ''u1''
       = Inr \<lparr> days_completed = 1, current_streak = 0, total_points = 10 \<rparr>"
  unfolding scenario_store_progress completed_days_midnight
  using midnight_value by simp

text \<open>
  C2. The claim fails on records whose date is a datetime. The store holds two completed
  records of the same calendar day, 2025-01-02 at 00:00 and at 08:30: the set of completed
  days has one element, and the endpoint returns \<open>days_completed = 2\<close>, since the set of
  the code holds the two datetimes.
\<close>

theorem days_completed_datetime_records:
  "card (completed_days (scenario_store [midnight_doc, morning_doc] (collection_name Progress) ''u1''))
     = 1
   \<and> progress_stats (Some ()) (scenario_store [midnight_doc, morning_doc]) (Date 2025 1 2) ''u1''
       = Inr \<lparr> days_completed = 2, current_streak = 0, total_points = 20 \<rparr>"
  unfolding scenario_store_progress completed_days_two_datetimes
  using two_datetimes_value by simp

text \<open>
  C3. The second part of the claim fails on records whose date is a datetime. The store
  holds one completed record, dated 2025-01-02 at 00:00; a further completed record of ten
  points for the same day, at 08:30, is appended. \<open>total_points\<close> grows by ten, as claimed,
  and \<open>days_completed\<close> goes from 1 to 2, where the claim leaves it unchanged.
\<close>

theorem duplicate_datetime_record:
  "completed morning_doc
   \<and> day_of (date morning_doc) = Some (Date 2025 1 2)
   \<and> Date 2025 1 2 \<in> completed_days (scenario_store [midnight_doc] (collection_name Progress) ''u1'')
   \<and> scenario_store [midnight_doc, morning_doc] (collection_name Progress) ''u1''
       = scenario_store [midnight_doc] (collection_name Progress) ''u1'' @ [morning_doc]
   \<and> progress_stats (Some ()) (scenario_store [midnight_doc]) (Date 2025 1 2) ''u1''
       = Inr \<lparr> days_completed = 1, current_streak = 0, total_points = 10 \<rparr>
   \<and> progress_stats (Some ()) (scenario_store [midnight_doc, morning_doc]) (Date 2025 1 2) ''u1''
       = Inr \<lparr> days_completed = 2, current_streak = 0, total_points = 20 \<rparr>"
  unfolding scenario_store_progress completed_days_midnight
  using midnight_value two_datetimes_value
  by (simp add: completed_scenario day_of_datetimes scenario_store_progress)

subsection \<open>All records\<close>

lemma progress_stats_returns:
  assumes "valid_date today"
    and "PDate (Date 1 1 1) \<notin> completed_values (gd (collection_name Progress) uid)"
    and "\<not> mixed_kinds (filter parseable (gd (collection_name Progress) uid))"
  shows "\<exists>st. progress_stats (Some db) gd today uid = Inr st"
  unfolding progress_stats_Some using assms by (rule compute_stats_returns)

lemma not_min_scenario: "PDate (Date 1 1 1) \<notin> completed_values [jan1_doc, jan2_doc]"
  unfolding completed_values_scenario by simp

text \<open>
  C10. Whenever the endpoint returns, \<open>current_streak \<le> days_completed\<close>, for all records,
  datetimes too. It returns for every valid \<open>today\<close> when the keys of the sort are of one
  kind and no completed record is dated 0001-01-01, the only day from which the walk of
  the streak cannot step back.
\<close>

theorem streak_le_days_completed:
  "(\<forall>st. progress_stats (Some db) gd today uid = Inr st \<longrightarrow>
       current_streak st \<le> days_completed st)
   \<and> (valid_date today
       \<and> PDate (Date 1 1 1) \<notin> completed_values (gd (collection_name Progress) uid)
       \<and> \<not> mixed_kinds (filter parseable (gd (collection_name Progress) uid)) \<longrightarrow>
       (\<exists>st. progress_stats (Some db) gd today uid = Inr st))"
  using progress_stats_returns [of today gd uid db]
  by (auto simp: progress_stats_Some dest: compute_stats_streak_le)

theorem streak_le_days_completed_witness:
  "valid_date (Date 2025 1 2)
   \<and> PDate (Date 1 1 1)
        \<notin> completed_values (scenario_store [jan1_doc, jan2_doc] (collection_name Progress) ''u1'')
   \<and> \<not> mixed_kinds
          (filter parseable (scenario_store [jan1_doc, jan2_doc] (collection_name Progress) ''u1''))
   \<and> (\<exists>st. progress_stats (Some ()) (scenario_store [jan1_doc, jan2_doc]) (Date 2025 1 2) ''u1'' = Inr st
          \<and> current_streak st \<le> days_completed st)"
proof -
  let ?gd = "scenario_store [jan1_doc, jan2_doc]"
  have n: "PDate (Date 1 1 1) \<notin> completed_values (?gd (collection_name Progress) ''u1'')"
    unfolding scenario_store_progress by (rule not_min_scenario)
  have m: "\<not> mixed_kinds (filter parseable (?gd (collection_name Progress) ''u1''))"
    unfolding scenario_store_progress by (rule not_mixed_scenario)
  note t = streak_le_days_completed [of "()" ?gd "Date 2025 1 2" "''u1''"]
  from t valid_jan2 n m obtain st where
    st: "progress_stats (Some ()) ?gd (Date 2025 1 2) ''u1'' = Inr st" by blast
  with t have "current_streak st \<le> days_completed st" by blast
  with st valid_jan2 n m show ?thesis by blast
qed

text \<open>
  C9. When the store returns the same records in another order (the two lists have the
  same multiset of records), the endpoint gives the same result: the same three numbers,
  or the same error.
\<close>

theorem stats_permutation_invariant:
  assumes "mset (gd (collection_name Progress) uid) = mset (gd' (collection_name Progress) uid)"
  shows "progress_stats db gd today uid = progress_stats db gd' today uid"
proof (cases db)
  case None
  then show ?thesis by (simp add: progress_stats_None)
next
  case (Some d)
  show ?thesis unfolding Some progress_stats_Some using assms by (rule compute_stats_mset)
qed

theorem stats_permutation_invariant_witness:
  "mset (scenario_store [jan1_doc, jan2_doc] (collection_name Progress) ''u1'')
     = mset (scenario_store [jan2_doc, jan1_doc] (collection_name Progress) ''u1'')
   \<and> progress_stats (Some ()) (scenario_store [jan2_doc, jan1_doc]) (Date 2025 1 2) ''u1''
       = Inr \<lparr> days_completed = 2, current_streak = 2, total_points = 20 \<rparr>"
proof -
  have m: "mset (scenario_store [jan1_doc, jan2_doc] (collection_name Progress) ''u1'')
     = mset (scenario_store [jan2_doc, jan1_doc] (collection_name Progress) ''u1'')"
    unfolding scenario_store_progress by (simp add: add.commute)
  note t = stats_permutation_invariant
    [where gd = "scenario_store [jan1_doc, jan2_doc]" and gd' = "scenario_store [jan2_doc, jan1_doc]"
       and uid = "''u1''" and db = "Some ()" and today = "Date 2025 1 2", OF m]
  have "progress_stats (Some ()) (scenario_store [jan2_doc, jan1_doc]) (Date 2025 1 2) ''u1''
       = Inr \<lparr> days_completed = 2, current_streak = 2, total_points = 20 \<rparr>"
    unfolding t [symmetric] by (rule scenario_value)
  with m show ?thesis by (intro conjI)
qed

text \<open>
  C5. A record whose date does not parse changes nothing: with the record anywhere in
  the list, the endpoint gives the result that it gives without it, so the record counts
  in none of the three numbers and raises nothing of its own. With it the endpoint returns
  for every valid \<open>today\<close> when the keys of the other records are of one kind and no
  completed record among them is dated 0001-01-01. The string \<^verbatim>\<open>not-a-date\<close> is such a
  date.
\<close>

theorem unparseable_record_excluded:
  assumes "parse_d (date r) = None"
    and "gd (collection_name Progress) uid = xs @ r # ys"
    and "gd' (collection_name Progress) uid = xs @ ys"
  shows "progress_stats db gd today uid = progress_stats db gd' today uid
   \<and> (valid_date today \<and> PDate (Date 1 1 1) \<notin> completed_values (xs @ ys)
       \<and> \<not> mixed_kinds (filter parseable (xs @ ys)) \<longrightarrow>
        (\<exists>st. progress_stats (Some db') gd today uid = Inr st))
   \<and> parse_d (VStr ''not-a-date'') = None"
proof (intro conjI impI)
  show "progress_stats db gd today uid = progress_stats db gd' today uid"
  proof (cases db)
    case None
    then show ?thesis by (simp add: progress_stats_None)
  next
    case (Some d)
    show ?thesis unfolding Some progress_stats_Some assms(2,3) using assms(1)
      by (rule compute_stats_drop_unparseable)
  qed
next
  assume a: "valid_date today \<and> PDate (Date 1 1 1) \<notin> completed_values (xs @ ys)
       \<and> \<not> mixed_kinds (filter parseable (xs @ ys))"
  from assms(1) have cv: "completed_values (xs @ r # ys) = completed_values (xs @ ys)"
    by (auto simp: completed_values_def)
  from assms(1) have "\<not> parseable r" by (simp add: parseable_def)
  then have fl: "filter parseable (xs @ r # ys) = filter parseable (xs @ ys)" by simp
  from a have "valid_date today"
    and "PDate (Date 1 1 1) \<notin> completed_values (gd (collection_name Progress) uid)"
    and "\<not> mixed_kinds (filter parseable (gd (collection_name Progress) uid))"
    unfolding assms(2) cv fl by simp_all
  then show "\<exists>st. progress_stats (Some db') gd today uid = Inr st"
    by (rule progress_stats_returns)
next
  show "parse_d (VStr ''not-a-date'') = None" by (rule parse_bad)
qed

theorem unparseable_record_excluded_witness:
  "parse_d (date bad_doc) = None
   \<and> scenario_store [jan1_doc, bad_doc, jan2_doc] (collection_name Progress) ''u1''
       = [jan1_doc] @ bad_doc # [jan2_doc]
   \<and> scenario_store [jan1_doc, jan2_doc] (collection_name Progress) ''u1'' = [jan1_doc] @ [jan2_doc]
   \<and> progress_stats (Some ()) (scenario_store [jan1_doc, bad_doc, jan2_doc]) (Date 2025 1 2) ''u1''
       = Inr \<lparr> days_completed = 2, current_streak = 2, total_points = 20 \<rparr>"
proof -
  have p: "parse_d (date bad_doc) = None" by (simp add: bad_doc_def parse_bad)
  have a: "scenario_store [jan1_doc, bad_doc, jan2_doc] (collection_name Progress) ''u1''
       = [jan1_doc] @ bad_doc # [jan2_doc]"
    unfolding scenario_store_progress by simp
  have b: "scenario_store [jan1_doc, jan2_doc] (collection_name Progress) ''u1'' = [jan1_doc] @ [jan2_doc]"
    unfolding scenario_store_progress by simp
  note t = unparseable_record_excluded
    [where r = bad_doc and gd = "scenario_store [jan1_doc, bad_doc, jan2_doc]"
       and gd' = "scenario_store [jan1_doc, jan2_doc]" and uid = "''u1''"
       and xs = "[jan1_doc]" and ys = "[jan2_doc]" and db = "Some ()" and db' = "()"
       and today = "Date 2025 1 2", OF p a b, THEN conjunct1]
  have v: "progress_stats (Some ()) (scenario_store [jan1_doc, bad_doc, jan2_doc]) (Date 2025 1 2) ''u1''
       = Inr \<lparr> days_completed = 2, current_streak = 2, total_points = 20 \<rparr>"
    unfolding t by (rule scenario_value)
  show ?thesis using p a b v by (intro conjI)
qed

section \<open>The claim on \<^verbatim>\<open>complete_today\<close>\<close>

text \<open>
  A request without a date, with a database at hand, succeeds: one document goes to
  \<^verbatim>\<open>create_document\<close>, in the collection of \<^verbatim>\<open>Progress\<close>, for the user of the request and
  for today, completed and with ten points, and the response reports ten points.
\<close>

lemma complete_today_undated:
  assumes "body_date body = None"
  shows "complete_today (Some db) create_document today body
        = Inr ((collection_name Progress,
                 \<lparr> user_id = body_user_id body, date = VStr (isoformat today),
                   completed = True, points_earned = Some 10 \<rparr>),
               \<lparr> resp_id = create_document (collection_name Progress)
                             \<lparr> user_id = body_user_id body, date = VStr (isoformat today),
                               completed = True, points_earned = Some 10 \<rparr>,
                 resp_points_earned = 10 \<rparr>)"
  using assms
  by (simp add: complete_today_def validate_complete_request_def ensure_db_def Let_def)

text \<open>A request with a date is refused, and nothing is written.\<close>

lemma complete_today_dated:
  assumes "body_date body = Some v"
  shows "complete_today db create_document today body = Inl RequestValidationError"
  using assms by (simp add: complete_today_def validate_complete_request_def)

text \<open>
  C7. The claim fails on a request that carries a day. For the body
  \<^verbatim>\<open>{"user_id": "u1", "date": "2025-01-02"}\<close> the endpoint creates no record and reports no
  points: the request is refused with a validation error (HTTP 422), because the field
  \<^verbatim>\<open>date\<close> of \<^verbatim>\<open>CompleteRequest\<close> admits \<^verbatim>\<open>None\<close> only, its name hiding the class \<^verbatim>\<open>date\<close>
  in its own annotation.
\<close>

theorem complete_today_dated_request:
  "complete_today (Some ()) (\<lambda>coll doc. 7 :: nat) (Date 2025 1 4)
       \<lparr> body_user_id = ''u1'', body_date = Some ''2025-01-02'' \<rparr>
     = Inl RequestValidationError"
  by (simp add: complete_today_def validate_complete_request_def)

end
